theory Spec2Isabelle
  imports Complex_Main "HOL-Library.AList" "HOL-Library.Sublist"
begin

section \<open>Python values of the notebook\<close>

text \<open>
  The per-tile notebook \<^verbatim>\<open>notebooks/Vietnam_coastlines_generation.ipynb\<close> is a
  sequence of cells. An exception that a cell does not catch ends the run; it is the
  \<open>Inl\<close> of a sum. Floating-point cells are idealised as rationals, with \<open>NaN\<close>
  as the missing value of pandas.
\<close>

datatype py_error = KeyError | ValueError | OtherError string

datatype cell = NaN | Num rat | Geom rat rat

text \<open>
  A (Geo)DataFrame is the list of its rows (features); a row is the association list of
  its columns (attributes) in column order. \<open>len(df)\<close> is the number of rows.
\<close>

type_synonym row = "(string \<times> cell) list"
type_synonym frame = "row list"

text \<open>A frame after \<^verbatim>\<open>set_index\<close>: each row with its index label.\<close>

type_synonym indexed = "(cell \<times> row) list"

text \<open>Python's \<^verbatim>\<open>str\<close> of an integer, as the f-string \<^verbatim>\<open>f"dist_{i}"\<close> uses it.\<close>

definition digit_char :: "nat \<Rightarrow> char" where
  "digit_char d = ''0123456789'' ! d"

fun str_nat :: "nat \<Rightarrow> string" where
  "str_nat n = (if n < 10 then [digit_char n] else str_nat (n div 10) @ [digit_char (n mod 10)])"

declare str_nat.simps [simp del]

definition str :: "int \<Rightarrow> string" where
  "str i = (if i < 0 then CHR ''-'' # str_nat (nat (- i)) else str_nat (nat i))"

subsection \<open>pandas operations the cells use\<close>

text \<open>
  \<^verbatim>\<open>df.set_index(k)\<close>: column \<open>k\<close> becomes the index and leaves the columns; a frame
  without the column raises \<^verbatim>\<open>KeyError\<close>.
\<close>

definition set_index :: "string \<Rightarrow> frame \<Rightarrow> py_error + indexed" where
  "set_index k f =
     (if list_all (\<lambda>r. map_of r k \<noteq> None) f
      then Inr (map (\<lambda>r. (case map_of r k of Some v \<Rightarrow> v | None \<Rightarrow> NaN, AList.delete k r)) f)
      else Inl KeyError)"

text \<open>
  \<^verbatim>\<open>df.reindex(columns=cols)\<close>: the result has exactly the columns \<open>cols\<close>, in that
  order; a column the frame has keeps its values, a column it lacks is filled with NaN,
  and every other column of the frame is dropped.
\<close>

definition reindex_row :: "string list \<Rightarrow> row \<Rightarrow> row" where
  "reindex_row cols r = map (\<lambda>c. (c, case map_of r c of Some v \<Rightarrow> v | None \<Rightarrow> NaN)) cols"

definition reindex :: "string list \<Rightarrow> frame \<Rightarrow> frame" where
  "reindex cols f = map (reindex_row cols) f"

text \<open>
  \<^verbatim>\<open>df.apply(fn, axis=1)\<close>: \<open>fn\<close> on every row, in order; the first exception ends it.
\<close>

fun apply_rows :: "(row \<Rightarrow> py_error + 'a) \<Rightarrow> frame \<Rightarrow> py_error + 'a list" where
  "apply_rows fn [] = Inr []"
| "apply_rows fn (r # rs) =
     (case fn r of
        Inl e \<Rightarrow> Inl e
      | Inr v \<Rightarrow> (case apply_rows fn rs of Inl e \<Rightarrow> Inl e | Inr vs \<Rightarrow> Inr (v # vs)))"

text \<open>
  \<^verbatim>\<open>df[names] = values\<close>: each named column is overwritten where the frame has it and
  appended where it does not; pandas raises \<^verbatim>\<open>ValueError\<close> when a row of values has not
  one value per name.
\<close>

definition assign_columns :: "string list \<Rightarrow> frame \<Rightarrow> cell list list \<Rightarrow> py_error + frame" where
  "assign_columns names f vals =
     (if length vals = length f \<and> list_all (\<lambda>vs. length vs = length names) vals
      then Inr (map (\<lambda>(r, vs). AList.updates names vs r) (zip f vals))
      else Inl ValueError)"

section \<open>The analysis parameters\<close>

record config =
  version :: string
  start_year :: int
  end_year :: int
  baseline_year :: int
  water_index :: string
  index_threshold :: rat
  study_area :: string
  output_dir :: string

text \<open>The values of the notebook's parameter cell.\<close>

definition notebook_config :: config where
  "notebook_config =
     \<lparr>version = ''testing'', start_year = 2020, end_year = 2022, baseline_year = 2021,
      water_index = ''mndwi'', index_threshold = 0, study_area = ''9,19'',
      output_dir = ''data/interim/vector/testing/9,19_testing''\<rparr>"

section \<open>The library the cells call\<close>

text \<open>
  The functions of \<^verbatim>\<open>coastlines.vector\<close>, \<^verbatim>\<open>coastlines.combined\<close> and
  \<^verbatim>\<open>dea_tools.spatial\<close> that the vector cells call are not part of the notebook: they
  are parameters of the model, each free to return a value or to raise. \<open>'ds\<close> is the
  yearly composite dataset, \<open>'m\<close> the masked dataset, \<open>'out\<close> what the export writes.
\<close>

record ('ds, 'm, 'out) library =
  subpixel_contours :: "'m \<Rightarrow> rat \<Rightarrow> nat \<Rightarrow> string \<Rightarrow> py_error + frame"
  points_on_line :: "indexed \<Rightarrow> int \<Rightarrow> nat \<Rightarrow> py_error + frame"
  annual_movements :: "frame \<Rightarrow> indexed \<Rightarrow> 'ds \<Rightarrow> string \<Rightarrow> string \<Rightarrow> nat \<Rightarrow> py_error + frame"
  calculate_regressions :: "frame \<Rightarrow> py_error + frame"
  all_time_stats :: "row \<Rightarrow> int \<Rightarrow> py_error + cell list"
  export_results :: "frame option \<Rightarrow> indexed \<Rightarrow> string \<Rightarrow> string \<Rightarrow> string \<Rightarrow> py_error + 'out"

section \<open>The vector cells of the notebook\<close>

text \<open>What the cells share: the variable \<^verbatim>\<open>points_gdf\<close> and what was printed.\<close>

record nb_state =
  points_gdf :: "frame option"
  printed :: "string list"

text \<open>
  \<^verbatim>\<open>contours_gdf = subpixel_contours(da=masked_ds, z_values=index_threshold,
  min_vertices=10, dim="year").set_index("year")\<close>
\<close>

definition contours_cell ::
  "('ds, 'm, 'out) library \<Rightarrow> config \<Rightarrow> 'm \<Rightarrow> py_error + indexed" where
  "contours_cell lib cfg masked_ds =
     (case subpixel_contours lib masked_ds (index_threshold cfg) 10 ''year'' of
        Inl e \<Rightarrow> Inl e
      | Inr f \<Rightarrow> set_index ''year'' f)"

text \<open>
  \<^verbatim>\<open>try: points_gdf = points_on_line(contours_gdf, baseline_year, distance=30)\<close>
  \<^verbatim>\<open>except KeyError: print("Failed to make points"); points_gdf = None\<close>
  Only \<^verbatim>\<open>KeyError\<close> is caught.
\<close>

definition points_cell ::
  "('ds, 'm, 'out) library \<Rightarrow> config \<Rightarrow> indexed \<Rightarrow> py_error + nb_state" where
  "points_cell lib cfg contours_gdf =
     (case points_on_line lib contours_gdf (baseline_year cfg) 30 of
        Inr pts \<Rightarrow> Inr \<lparr>points_gdf = Some pts, printed = []\<rparr>
      | Inl KeyError \<Rightarrow> Inr \<lparr>points_gdf = None, printed = [''Failed to make points'']\<rparr>
      | Inl e \<Rightarrow> Inl e)"

definition dist_columns :: "config \<Rightarrow> string list" where
  "dist_columns cfg = map (\<lambda>i. ''dist_'' @ str i) [start_year cfg .. end_year cfg]"

definition movement_columns :: "config \<Rightarrow> string list" where
  "movement_columns cfg = ''geometry'' # dist_columns cfg @ [''angle_mean'', ''angle_std'']"

text \<open>
  The movement cell, under the guard \<^verbatim>\<open>points_gdf is not None and len(points_gdf) > 0\<close>:
  \<^verbatim>\<open>annual_movements(points_gdf, contours_gdf, combined_ds, str(baseline_year),
  water_index, max_valid_dist=1200)\<close>, then the reindex to \<^verbatim>\<open>geometry\<close>, one
  \<^verbatim>\<open>dist_<i>\<close> for every \<open>i\<close> of \<^verbatim>\<open>range(start_year, end_year + 1)\<close>,
  \<^verbatim>\<open>angle_mean\<close> and \<^verbatim>\<open>angle_std\<close>. Its \<^verbatim>\<open>else\<close> prints.
\<close>

definition movement_cell ::
  "('ds, 'm, 'out) library \<Rightarrow> config \<Rightarrow> indexed \<Rightarrow> 'ds \<Rightarrow> nb_state \<Rightarrow> py_error + nb_state" where
  "movement_cell lib cfg contours_gdf combined_ds st =
     (case points_gdf st of
        Some f \<Rightarrow>
          if 0 < length f
          then (case annual_movements lib f contours_gdf combined_ds (str (baseline_year cfg))
                       (water_index cfg) 1200 of
                  Inl e \<Rightarrow> Inl e
                | Inr moved \<Rightarrow> Inr (st\<lparr>points_gdf := Some (reindex (movement_columns cfg) moved)\<rparr>))
          else Inr (st\<lparr>printed := printed st @ [''Something went wrong! Check the points.'']\<rparr>)
      | None \<Rightarrow> Inr (st\<lparr>printed := printed st @ [''Something went wrong! Check the points.'']\<rparr>))"

definition stats_list :: "string list" where
  "stats_list = [''valid_obs'', ''valid_span'', ''sce'', ''nsm'', ''max_year'', ''min_year'']"

text \<open>
  The regression cell, under the same guard: \<^verbatim>\<open>calculate_regressions(points_gdf)\<close>, then
  \<^verbatim>\<open>points_gdf[stats_list] = points_gdf.apply(lambda x: all_time_stats(x,
  initial_year=start_year), axis=1)\<close>. It has no \<^verbatim>\<open>else\<close>.
\<close>

definition regression_cell ::
  "('ds, 'm, 'out) library \<Rightarrow> config \<Rightarrow> nb_state \<Rightarrow> py_error + nb_state" where
  "regression_cell lib cfg st =
     (case points_gdf st of
        Some f \<Rightarrow>
          if 0 < length f
          then (case calculate_regressions lib f of
                  Inl e \<Rightarrow> Inl e
                | Inr reg \<Rightarrow>
                    (case apply_rows (\<lambda>x. all_time_stats lib x (start_year cfg)) reg of
                       Inl e \<Rightarrow> Inl e
                     | Inr vals \<Rightarrow>
                         (case assign_columns stats_list reg vals of
                            Inl e \<Rightarrow> Inl e
                          | Inr g \<Rightarrow> Inr (st\<lparr>points_gdf := Some g\<rparr>))))
          else Inr st
      | None \<Rightarrow> Inr st)"

text \<open>The three cells between the contours and the export, run in order.\<close>

definition vector_cells ::
  "('ds, 'm, 'out) library \<Rightarrow> config \<Rightarrow> indexed \<Rightarrow> 'ds \<Rightarrow> py_error + nb_state" where
  "vector_cells lib cfg contours_gdf combined_ds =
     (case points_cell lib cfg contours_gdf of
        Inl e \<Rightarrow> Inl e
      | Inr st \<Rightarrow>
          (case movement_cell lib cfg contours_gdf combined_ds st of
             Inl e \<Rightarrow> Inl e
           | Inr st' \<Rightarrow> regression_cell lib cfg st'))"

text \<open>
  The last cell: \<^verbatim>\<open>export_results(points_gdf, contours_gdf, version, output_dir,
  study_area)\<close>, under no condition.
\<close>

definition export_cell ::
  "('ds, 'm, 'out) library \<Rightarrow> config \<Rightarrow> indexed \<Rightarrow> nb_state \<Rightarrow> py_error + 'out" where
  "export_cell lib cfg contours_gdf st =
     export_results lib (points_gdf st) contours_gdf (version cfg) (output_dir cfg) (study_area cfg)"

text \<open>
  The notebook from the extraction of the contours to the export. The map preview between
  the contours and the points assigns none of these variables and is left out; the cells
  before the contours (loading, tide filtering, compositing, masking) have finished.
\<close>

definition tile_pipeline ::
  "('ds, 'm, 'out) library \<Rightarrow> config \<Rightarrow> 'm \<Rightarrow> 'ds \<Rightarrow> py_error + 'out" where
  "tile_pipeline lib cfg masked_ds combined_ds =
     (case contours_cell lib cfg masked_ds of
        Inl e \<Rightarrow> Inl e
      | Inr contours_gdf \<Rightarrow>
          (case vector_cells lib cfg contours_gdf combined_ds of
             Inl e \<Rightarrow> Inl e
           | Inr st \<Rightarrow> export_cell lib cfg contours_gdf st))"

subsection \<open>What the regression step may do to a frame\<close>

text \<open>
  \<open>keeps_cells r r'\<close>: row \<open>r'\<close> has every column of \<open>r\<close> with the value it has in
  \<open>r\<close> (it may have more columns).
\<close>

definition keeps_cells :: "row \<Rightarrow> row \<Rightarrow> bool" where
  "keeps_cells r r' = list_all (\<lambda>k. map_of r' k = map_of r k) (map fst r)"

subsection \<open>Two libraries to run the cells on\<close>

text \<open>
  A library whose functions all return: contours for 2020 and 2021, none for 2022; one
  point; a regression that adds a column.
\<close>

definition demo_library :: "(unit, unit, frame option \<times> indexed) library" where
  "demo_library =
     \<lparr>subpixel_contours = (\<lambda>m z n d.
         Inr [[(''year'', Num 2020), (''geometry'', Geom 0 0)],
              [(''year'', Num 2021), (''geometry'', Geom 0 1)]]),
      points_on_line = (\<lambda>c y d.
         case map_of c (Num (of_int y)) of
           None \<Rightarrow> Inl KeyError
         | Some r \<Rightarrow> Inr [[(''geometry'', Geom 0 1)]]),
      annual_movements = (\<lambda>f c ds b w m.
         Inr (map (\<lambda>r. r @ [(''p_baseline'', Geom 0 1), (''dist_2020'', Num 30),
                             (''dist_2021'', Num 0), (''angle_mean'', Num 90),
                             (''angle_std'', Num 0)]) f)),
      calculate_regressions = (\<lambda>f. Inr (map (\<lambda>r. r @ [(''rate_time'', Num (- 30))]) f)),
      all_time_stats = (\<lambda>x y. Inr [Num 2, Num 2, Num 30, Num (- 30), Num 2020, Num 2021]),
      export_results = (\<lambda>p c v out area. Inr (p, c))\<rparr>"

definition demo_contours :: indexed where
  "demo_contours =
     [(Num 2020, [(''geometry'', Geom 0 0)]), (Num 2021, [(''geometry'', Geom 0 1)])]"

text \<open>
  A library with a contour for 2020 only, whose movement, regression and statistics
  functions raise whenever they are called.
\<close>

definition raising_library :: "(unit, unit, frame option \<times> indexed) library" where
  "raising_library =
     \<lparr>subpixel_contours = (\<lambda>m z n d. Inr [[(''year'', Num 2020), (''geometry'', Geom 0 0)]]),
      points_on_line = (\<lambda>c y d.
         case map_of c (Num (of_int y)) of
           None \<Rightarrow> Inl KeyError
         | Some r \<Rightarrow> Inr []),
      annual_movements = (\<lambda>f c ds b w m. Inl (OtherError ''annual_movements'')),
      calculate_regressions = (\<lambda>f. Inl (OtherError ''calculate_regressions'')),
      all_time_stats = (\<lambda>x y. Inl (OtherError ''all_time_stats'')),
      export_results = (\<lambda>p c v out area. Inr (p, c))\<rparr>"

section \<open>The workflow that runs the tiles\<close>

text \<open>
  The Argo workflow \<^verbatim>\<open>vietnam-coastlines-\<close> has one DAG of three tasks. A task
  runs when its \<^verbatim>\<open>depends\<close> expression holds of the tasks before it and is omitted
  otherwise; a task with \<^verbatim>\<open>withParam\<close> runs its template once per item of the named
  task's output.
\<close>

datatype phase = Succeeded | Failed | Omitted

datatype criterion = IsSucceeded | IsFailed | AnySucceeded | AllFailed

datatype depends = Result string criterion | And depends depends | Or depends depends | Not depends

record task =
  name :: string
  depends :: "depends option"
  template :: string
  with_param :: "string option"

text \<open>The tasks of \<^verbatim>\<open>coastlines-dag\<close>, in the order of the file.\<close>

definition coastlines_dag :: "task list" where
  "coastlines_dag =
     [\<lparr>name = ''generate-ids'', depends = None, template = ''generate'', with_param = None\<rparr>,
      \<lparr>name = ''process-id'', depends = Some (Result ''generate-ids'' IsSucceeded),
       template = ''process'', with_param = Some ''generate-ids''\<rparr>,
      \<lparr>name = ''merge'', depends = Some (Result ''process-id'' AnySucceeded),
       template = ''merge-continental'', with_param = None\<rparr>]"

text \<open>
  What the containers do is not the workflow's: whether a template's container exits
  with success (for an item, when the task has items) and the list a task prints as
  its result are parameters.
\<close>

record run =
  exit_ok :: "string \<Rightarrow> string option \<Rightarrow> bool"
  result :: "string \<Rightarrow> string list"

definition container_phase :: "run \<Rightarrow> string \<Rightarrow> string option \<Rightarrow> phase" where
  "container_phase r tmpl item = (if exit_ok r tmpl item then Succeeded else Failed)"

text \<open>A task's node: the phases of its pods, one per item for a task with items.\<close>

type_synonym node = "phase list"

fun holds :: "criterion \<Rightarrow> node \<Rightarrow> bool" where
  "holds IsSucceeded n = (n \<noteq> [] \<and> list_all (\<lambda>p. p = Succeeded) n)"
| "holds IsFailed n = list_ex (\<lambda>p. p = Failed) n"
| "holds AnySucceeded n = list_ex (\<lambda>p. p = Succeeded) n"
| "holds AllFailed n = (n \<noteq> [] \<and> list_all (\<lambda>p. p = Failed) n)"

fun satisfied :: "(string \<times> node) list \<Rightarrow> depends \<Rightarrow> bool" where
  "satisfied ns (Result t c) = (case map_of ns t of None \<Rightarrow> False | Some n \<Rightarrow> holds c n)"
| "satisfied ns (And a b) = (satisfied ns a \<and> satisfied ns b)"
| "satisfied ns (Or a b) = (satisfied ns a \<or> satisfied ns b)"
| "satisfied ns (Not a) = (\<not> satisfied ns a)"

definition run_task :: "run \<Rightarrow> (string \<times> node) list \<Rightarrow> task \<Rightarrow> node" where
  "run_task r ns t =
     (if (case depends t of None \<Rightarrow> True | Some d \<Rightarrow> satisfied ns d)
      then (case with_param t of
              None \<Rightarrow> [container_phase r (template t) None]
            | Some src \<Rightarrow> map (\<lambda>i. container_phase r (template t) (Some i)) (result r src))
      else [Omitted])"

fun run_dag :: "run \<Rightarrow> (string \<times> node) list \<Rightarrow> task list \<Rightarrow> (string \<times> node) list" where
  "run_dag r ns [] = ns"
| "run_dag r ns (t # ts) = run_dag r (ns @ [(name t, run_task r ns t)]) ts"

definition merge_node :: "run \<Rightarrow> node option" where
  "merge_node r = map_of (run_dag r [] coastlines_dag) ''merge''"

text \<open>The tiles whose \<^verbatim>\<open>process\<close> pod ran and succeeded.\<close>

definition succeeded_tiles :: "run \<Rightarrow> string list" where
  "succeeded_tiles r =
     (if exit_ok r ''generate'' None
      then filter (\<lambda>i. exit_ok r ''process'' (Some i)) (result r ''generate-ids'')
      else [])"

text \<open>A run of two tiles, the first of which fails.\<close>

definition demo_run :: run where
  "demo_run =
     \<lparr>exit_ok = (\<lambda>tmpl item. \<not> (tmpl = ''process'' \<and> item = Some ''9,18'')),
      result = (\<lambda>t. if t = ''generate-ids'' then [''9,18'', ''9,19''] else [])\<rparr>"

section \<open>Components whose code the notebook only calls\<close>

subsection \<open>TideFilter\<close>

text \<open>
  An observation of the stack: its acquisition time and its pixels. The modelled tide
  height of an observation comes from the tide model, which is a parameter: it is read
  at the tide-model location, in the coarse or the high-resolution mode.
\<close>

record 'px observation =
  obs_time :: int
  pixels :: 'px

definition tide_mean :: "rat list \<Rightarrow> rat" where
  "tide_mean hs = sum_list hs / of_nat (length hs)"

definition tidal_range :: "rat list \<Rightarrow> rat" where
  "tidal_range hs = Max (set hs) - Min (set hs)"

text \<open>
  Modelled from the spec: \<^verbatim>\<open>filter_by_tides\<close> of \<^verbatim>\<open>coastlines.combined\<close> is
  imported by the notebook and is not among the source files. Section 4.1: inputs are
  the observation stack, the tide-model location, the retention fraction and the
  resolution mode; the empirical tidal range is max - min of the modelled heights over
  the whole stack; the observations retained are those whose modelled height lies
  within fraction * range / 2 of the stack's mean tide height. Heights are rationals.
\<close>

definition filter_by_tides ::
  "(string \<Rightarrow> bool \<Rightarrow> 'px observation \<Rightarrow> rat) \<Rightarrow> 'px observation list \<Rightarrow> string \<Rightarrow> rat \<Rightarrow> bool
     \<Rightarrow> 'px observation list" where
  "filter_by_tides model_tides ds tide_data_location fraction use_highres =
     (let tide_m = model_tides tide_data_location use_highres;
          hs = map tide_m ds
      in filter (\<lambda>ob. \<bar>tide_m ob - tide_mean hs\<bar> \<le> fraction * tidal_range hs / 2) ds)"

text \<open>A stack of three observations with tides 0, 0 and 3: none is within the window.\<close>

definition demo_stack :: "unit observation list" where
  "demo_stack =
     [\<lparr>obs_time = 1, pixels = ()\<rparr>, \<lparr>obs_time = 2, pixels = ()\<rparr>, \<lparr>obs_time = 3, pixels = ()\<rparr>]"

definition demo_tides :: "string \<Rightarrow> bool \<Rightarrow> unit observation \<Rightarrow> rat" where
  "demo_tides loc hr ob = (if obs_time ob = 3 then 3 else 0)"

subsection \<open>PointSampler\<close>

text \<open>
  A contour is the list of the arc lengths of its components, in traversal order. A
  baseline point is its arc position along the whole contour and where that falls: the
  index of the component and the arc length along it.
\<close>

record baseline_point =
  arc :: rat
  located :: "(nat \<times> rat) option"

fun locate :: "rat list \<Rightarrow> nat \<Rightarrow> rat \<Rightarrow> (nat \<times> rat) option" where
  "locate [] i a = None"
| "locate (l # ls) i a = (if a < l then Some (i, a) else locate ls (Suc i) (a - l))"

definition sample_count :: "rat list \<Rightarrow> rat \<Rightarrow> nat" where
  "sample_count comps spacing = nat \<lceil>sum_list comps / spacing\<rceil>"

text \<open>
  Modelled from the spec: \<^verbatim>\<open>points_on_line\<close> of \<^verbatim>\<open>coastlines.vector\<close> is called by
  the notebook and is not among the source files. Section 4.5: walk the contour's
  components by arc length, in their order and from the start of the first, emitting a
  point every \<open>spacing\<close> units: the points are at the arc positions 0, spacing,
  2 * spacing, ... below the total length. An empty contour gives no point.
\<close>

definition point_sampler :: "rat list \<Rightarrow> rat \<Rightarrow> baseline_point list" where
  "point_sampler comps spacing =
     map (\<lambda>k. \<lparr>arc = of_nat k * spacing, located = locate comps 0 (of_nat k * spacing)\<rparr>)
       [0 ..< sample_count comps spacing]"

subsection \<open>StatsEngine\<close>

text \<open>
  A point record: for every year its signed distance, \<open>None\<close> where it is NaN.
\<close>

type_synonym point_record = "(int \<times> rat option) list"

record regression_stats =
  slope :: "rat option"
  valid_obs :: nat
  valid_span :: "int option"
  sce :: "rat option"
  nsm :: "rat option"
  max_year :: "int option"
  min_year :: "int option"

fun valid_years :: "point_record \<Rightarrow> (int \<times> rat) list" where
  "valid_years [] = []"
| "valid_years ((y, None) # ps) = valid_years ps"
| "valid_years ((y, Some d) # ps) = (y, d) # valid_years ps"

text \<open>The first element of greatest (least) key, the search starting from \<open>best\<close>.\<close>

fun arg_max_by :: "('a \<Rightarrow> 'k::linorder) \<Rightarrow> 'a \<Rightarrow> 'a list \<Rightarrow> 'a" where
  "arg_max_by k best [] = best"
| "arg_max_by k best (p # ps) = arg_max_by k (if k best < k p then p else best) ps"

fun arg_min_by :: "('a \<Rightarrow> 'k::linorder) \<Rightarrow> 'a \<Rightarrow> 'a list \<Rightarrow> 'a" where
  "arg_min_by k best [] = best"
| "arg_min_by k best (p # ps) = arg_min_by k (if k p < k best then p else best) ps"

text \<open>Ordinary least squares: the slope of y against x, undefined when x does not vary.\<close>

definition ols_slope :: "(rat \<times> rat) list \<Rightarrow> rat option" where
  "ols_slope xys =
     (let n = of_nat (length xys);
          sx = sum_list (map fst xys); sy = sum_list (map snd xys);
          sxx = sum_list (map (\<lambda>(x, y). x * x) xys);
          sxy = sum_list (map (\<lambda>(x, y). x * y) xys);
          den = n * sxx - sx * sx
      in if den = 0 then None else Some ((n * sxy - sx * sy) / den))"

text \<open>
  Modelled from the spec: \<^verbatim>\<open>calculate_regressions\<close> and \<^verbatim>\<open>all_time_stats\<close> of
  \<^verbatim>\<open>coastlines.vector\<close> are called by the notebook and are not among the source
  files. Section 4.7: least-squares regression of distance against year index over the
  valid (non-NaN) years; the valid observation count; the valid span (max valid year -
  min valid year); SCE = max - min of the valid distances; NSM = the distance at the
  latest valid year - the distance at the earliest valid year; the years of the maximum
  and minimum distance. With fewer than two valid observations the regression and the
  span-derived statistics are missing values.
\<close>

definition stats_engine :: "point_record \<Rightarrow> int \<Rightarrow> regression_stats" where
  "stats_engine rec initial_year =
     (case valid_years rec of
        [] \<Rightarrow> \<lparr>slope = None, valid_obs = 0, valid_span = None, sce = None, nsm = None,
               max_year = None, min_year = None\<rparr>
      | [p] \<Rightarrow> \<lparr>slope = None, valid_obs = 1, valid_span = None, sce = None, nsm = None,
                max_year = Some (fst p), min_year = Some (fst p)\<rparr>
      | p # q # ps \<Rightarrow>
          (let vs = q # ps;
               latest = arg_max_by fst p vs; earliest = arg_min_by fst p vs;
               highest = arg_max_by snd p vs; lowest = arg_min_by snd p vs
           in \<lparr>slope = ols_slope (map (\<lambda>(y, d). (of_int (y - initial_year), d)) (p # vs)),
               valid_obs = length (p # vs),
               valid_span = Some (fst latest - fst earliest),
               sce = Some (snd highest - snd lowest),
               nsm = Some (snd latest - snd earliest),
               max_year = Some (fst highest), min_year = Some (fst lowest)\<rparr>))"

section \<open>Properties of the notebook's vector cells\<close>

subsection \<open>Frames\<close>

lemma apply_rows_length: "apply_rows fn f = Inr vs \<Longrightarrow> length vs = length f"
  by (induction f arbitrary: vs) (auto split: sum.splits)

lemma map_of_reindex_row:
  "map_of (reindex_row cols r) c =
     (if c \<in> set cols then Some (case map_of r c of Some v \<Rightarrow> v | None \<Rightarrow> NaN) else None)"
  unfolding reindex_row_def by (induction cols) auto

lemma map_of_updates_other:
  "k \<notin> set ks \<Longrightarrow> map_of (AList.updates ks vs r) k = map_of r k"
  by (simp add: updates_conv)

lemma map_of_updates_in:
  "k \<in> set ks \<Longrightarrow> length vs = length ks \<Longrightarrow> map_of (AList.updates ks vs r) k \<noteq> None"
proof -
  assume a: "k \<in> set ks" "length vs = length ks"
  have "k \<in> dom (map_of (AList.updates ks vs r))"
    using a by (simp add: updates_conv')
  then show ?thesis by auto
qed

lemma dist_column_in_range:
  "start_year cfg \<le> y \<Longrightarrow> y \<le> end_year cfg \<Longrightarrow> ''dist_'' @ str y \<in> set (movement_columns cfg)"
  by (simp add: movement_columns_def dist_columns_def)

lemma dist_not_stat: "''dist_'' @ s \<notin> set stats_list"
  by (simp add: stats_list_def)

lemma keeps_cells_map_of:
  "keeps_cells r r' \<Longrightarrow> map_of r k = Some v \<Longrightarrow> map_of r' k = Some v"
proof -
  assume k: "keeps_cells r r'" and m: "map_of r k = Some v"
  have "k \<in> fst ` set r" using map_of_SomeD[OF m] by force
  then have "map_of r' k = map_of r k" using k by (auto simp: keeps_cells_def list_all_iff)
  then show ?thesis using m by simp
qed

text \<open>The frame the regression cell leaves, for a frame with rows.\<close>

lemma regression_cell_rows:
  assumes "points_gdf st = Some f" "f \<noteq> []"
    and "calculate_regressions lib f = Inr reg"
    and "apply_rows (\<lambda>x. all_time_stats lib x (start_year cfg)) reg = Inr vals"
    and "list_all (\<lambda>vs. length vs = length stats_list) vals"
  shows "regression_cell lib cfg st =
           Inr (st\<lparr>points_gdf := Some (map (\<lambda>(r, vs). AList.updates stats_list vs r) (zip reg vals))\<rparr>)"
  using assms apply_rows_length[OF assms(4)]
  by (simp add: regression_cell_def assign_columns_def)

lemma movement_cell_rows:
  assumes "points_gdf st = Some pts" "pts \<noteq> []"
    and "annual_movements lib pts contours_gdf combined_ds (str (baseline_year cfg))
           (water_index cfg) 1200 = Inr moved"
  shows "movement_cell lib cfg contours_gdf combined_ds st =
           Inr (st\<lparr>points_gdf := Some (reindex (movement_columns cfg) moved)\<rparr>)"
  using assms by (simp add: movement_cell_def)

lemma str_years: "str 2021 = ''2021''" "str 2020 = ''2020''" "str 2022 = ''2022''"
  by (simp_all add: str_def str_nat.simps digit_char_def)

subsection \<open>No points\<close>

text \<open>
  Claim C7. When the baseline-year contour is missing, so that \<^verbatim>\<open>points_on_line\<close>
  raises \<^verbatim>\<open>KeyError\<close>, or when it yields no point, the cells between the contours and
  the export finish without an exception, whatever \<^verbatim>\<open>annual_movements\<close>,
  \<^verbatim>\<open>calculate_regressions\<close> and \<^verbatim>\<open>all_time_stats\<close> would do if called: they are
  not called. The point set is \<^verbatim>\<open>None\<close> (or the empty frame), the movement cell
  prints its message, and the regression cell is skipped by its guard.
\<close>

theorem no_points_short_circuit:
  assumes "points_on_line lib contours_gdf (baseline_year cfg) 30 = Inl KeyError
         \<or> points_on_line lib contours_gdf (baseline_year cfg) 30 = Inr []"
  shows "vector_cells lib cfg contours_gdf combined_ds =
           Inr (if points_on_line lib contours_gdf (baseline_year cfg) 30 = Inl KeyError
                then \<lparr>points_gdf = None,
                      printed = [''Failed to make points'', ''Something went wrong! Check the points.'']\<rparr>
                else \<lparr>points_gdf = Some [],
                      printed = [''Something went wrong! Check the points.'']\<rparr>)"
  using assms
  by (auto simp: vector_cells_def points_cell_def movement_cell_def regression_cell_def)

theorem no_points_short_circuit_witness:
  "points_on_line raising_library [(Num 2020, [(''geometry'', Geom 0 0)])]
      (baseline_year notebook_config) 30 = Inl KeyError
   \<and> vector_cells raising_library notebook_config [(Num 2020, [(''geometry'', Geom 0 0)])] () =
       Inr \<lparr>points_gdf = None,
            printed = [''Failed to make points'', ''Something went wrong! Check the points.'']\<rparr>"
proof -
  have h: "points_on_line raising_library [(Num 2020, [(''geometry'', Geom 0 0)])]
      (baseline_year notebook_config) 30 = Inl KeyError"
    by (simp add: raising_library_def notebook_config_def)
  show ?thesis
    using no_points_short_circuit[of raising_library "[(Num 2020, [(''geometry'', Geom 0 0)])]"
        notebook_config "()"] h
    by simp
qed

subsection \<open>The export\<close>

text \<open>
  Claim C10. The export cell has no guard: a run whose earlier cells finish calls
  \<^verbatim>\<open>export_results\<close> with the point set they left and with the year-indexed
  contours. After \<^verbatim>\<open>KeyError\<close> in point generation it is called with \<^verbatim>\<open>None\<close> and
  those contours, and after an empty point set with the empty frame and those contours.
\<close>

theorem export_unconditional:
  assumes "contours_cell lib cfg masked_ds = Inr contours_gdf"
  shows "(\<forall>st. vector_cells lib cfg contours_gdf combined_ds = Inr st \<longrightarrow>
            tile_pipeline lib cfg masked_ds combined_ds =
              export_results lib (points_gdf st) contours_gdf (version cfg) (output_dir cfg)
                (study_area cfg))
       \<and> (points_on_line lib contours_gdf (baseline_year cfg) 30 = Inl KeyError \<longrightarrow>
            tile_pipeline lib cfg masked_ds combined_ds =
              export_results lib None contours_gdf (version cfg) (output_dir cfg) (study_area cfg))
       \<and> (points_on_line lib contours_gdf (baseline_year cfg) 30 = Inr [] \<longrightarrow>
            tile_pipeline lib cfg masked_ds combined_ds =
              export_results lib (Some []) contours_gdf (version cfg) (output_dir cfg)
                (study_area cfg))"
  using assms
  by (auto simp: tile_pipeline_def export_cell_def vector_cells_def points_cell_def
      movement_cell_def regression_cell_def)

theorem export_unconditional_witness:
  "contours_cell raising_library notebook_config () = Inr [(Num 2020, [(''geometry'', Geom 0 0)])]
   \<and> points_on_line raising_library [(Num 2020, [(''geometry'', Geom 0 0)])]
        (baseline_year notebook_config) 30 = Inl KeyError
   \<and> tile_pipeline raising_library notebook_config () () =
        Inr (None, [(Num 2020, [(''geometry'', Geom 0 0)])])"
proof -
  have c: "contours_cell raising_library notebook_config () = Inr [(Num 2020, [(''geometry'', Geom 0 0)])]"
    by (simp add: contours_cell_def raising_library_def set_index_def)
  have h: "points_on_line raising_library [(Num 2020, [(''geometry'', Geom 0 0)])]
      (baseline_year notebook_config) 30 = Inl KeyError"
    by (simp add: raising_library_def notebook_config_def)
  have "tile_pipeline raising_library notebook_config () () =
          export_results raising_library None [(Num 2020, [(''geometry'', Geom 0 0)])]
            (version notebook_config) (output_dir notebook_config) (study_area notebook_config)"
    using export_unconditional[OF c, of "()"] h by blast
  then show ?thesis using c h by (simp add: raising_library_def)
qed

subsection \<open>The attributes of the output\<close>

text \<open>
  Claim C9. On a run that has points, where the regression step keeps the cells it is
  given and \<^verbatim>\<open>all_time_stats\<close> returns one value per statistic, the frame handed to
  \<^verbatim>\<open>export_results\<close> has one row per point left by \<^verbatim>\<open>annual_movements\<close>. For every
  year from \<open>start_year\<close> to \<open>end_year\<close> the row has the attribute \<^verbatim>\<open>dist_<year>\<close>:
  its value is the one \<^verbatim>\<open>annual_movements\<close> gave (NaN included), and NaN where
  \<^verbatim>\<open>annual_movements\<close> gave no such column. The row also has \<^verbatim>\<open>geometry\<close>,
  \<^verbatim>\<open>angle_mean\<close>, \<^verbatim>\<open>angle_std\<close>, \<^verbatim>\<open>valid_obs\<close>, \<^verbatim>\<open>valid_span\<close>, \<^verbatim>\<open>sce\<close>,
  \<^verbatim>\<open>nsm\<close>, \<^verbatim>\<open>max_year\<close> and \<^verbatim>\<open>min_year\<close>. The contours handed to the export are
  the extracted features, each under its year as index label.
\<close>

theorem output_schema:
  assumes feats: "subpixel_contours lib masked_ds (index_threshold cfg) 10 ''year'' = Inr feats"
    and idx: "set_index ''year'' feats = Inr contours_gdf"
    and pts: "points_on_line lib contours_gdf (baseline_year cfg) 30 = Inr pts" "pts \<noteq> []"
    and am: "annual_movements lib pts contours_gdf combined_ds (str (baseline_year cfg))
               (water_index cfg) 1200 = Inr moved" "moved \<noteq> []"
    and cr: "calculate_regressions lib (reindex (movement_columns cfg) moved) = Inr reg"
    and keeps: "list_all2 keeps_cells (reindex (movement_columns cfg) moved) reg"
    and stats: "apply_rows (\<lambda>x. all_time_stats lib x (start_year cfg)) reg = Inr vals"
               "list_all (\<lambda>vs. length vs = length stats_list) vals"
  shows "\<exists>out. tile_pipeline lib cfg masked_ds combined_ds =
                 export_results lib (Some out) contours_gdf (version cfg) (output_dir cfg) (study_area cfg)
             \<and> length out = length moved
             \<and> (\<forall>i<length moved.
                   (\<forall>y. start_year cfg \<le> y \<and> y \<le> end_year cfg \<longrightarrow>
                      map_of (out ! i) (''dist_'' @ str y) =
                        Some (case map_of (moved ! i) (''dist_'' @ str y) of Some v \<Rightarrow> v | None \<Rightarrow> NaN))
                 \<and> (\<forall>c \<in> set [''geometry'', ''angle_mean'', ''angle_std''] \<union> set stats_list.
                      map_of (out ! i) c \<noteq> None))
             \<and> length contours_gdf = length feats
             \<and> (\<forall>j<length feats. map_of (feats ! j) ''year'' = Some (fst (contours_gdf ! j)))"
proof -
  let ?cols = "movement_columns cfg"
  let ?re = "reindex ?cols moved"
  let ?out = "map (\<lambda>(r, vs). AList.updates stats_list vs r) (zip reg vals)"
  have len_re: "length ?re = length moved" by (simp add: reindex_def)
  have len_reg: "length reg = length moved"
    using list_all2_lengthD[OF keeps] len_re by simp
  have len_vals: "length vals = length moved"
    using apply_rows_length[OF stats(1)] len_reg by simp
  have reg_ne: "reg \<noteq> []" using len_reg am(2) by auto
  have re_ne: "?re \<noteq> []" using len_re am(2) by auto
  have st1: "points_cell lib cfg contours_gdf = Inr \<lparr>points_gdf = Some pts, printed = []\<rparr>"
    using pts by (simp add: points_cell_def)
  have st2: "movement_cell lib cfg contours_gdf combined_ds \<lparr>points_gdf = Some pts, printed = []\<rparr> =
               Inr \<lparr>points_gdf = Some ?re, printed = []\<rparr>"
    using movement_cell_rows[of "\<lparr>points_gdf = Some pts, printed = []\<rparr>" pts lib contours_gdf combined_ds cfg moved]
      pts am by simp
  have st3: "regression_cell lib cfg \<lparr>points_gdf = Some ?re, printed = []\<rparr> =
               Inr \<lparr>points_gdf = Some ?out, printed = []\<rparr>"
    using regression_cell_rows[of "\<lparr>points_gdf = Some ?re, printed = []\<rparr>" ?re lib reg cfg vals]
      re_ne cr stats by simp
  have run: "tile_pipeline lib cfg masked_ds combined_ds =
               export_results lib (Some ?out) contours_gdf (version cfg) (output_dir cfg) (study_area cfg)"
    using feats idx st1 st2 st3
    by (simp add: tile_pipeline_def contours_cell_def vector_cells_def export_cell_def)
  have len_out: "length ?out = length moved" using len_reg len_vals by simp
  have row: "?out ! i = AList.updates stats_list (vals ! i) (reg ! i)" if "i < length moved" for i
    using that len_reg len_vals by simp
  have vlen: "length (vals ! i) = length stats_list" if "i < length moved" for i
    using stats(2) that len_vals by (simp add: list_all_length)
  have kept: "keeps_cells (reindex_row ?cols (moved ! i)) (reg ! i)" if "i < length moved" for i
    using keeps that len_re by (simp add: list_all2_conv_all_nth reindex_def)
  have col: "map_of (?out ! i) c = Some (case map_of (moved ! i) c of Some v \<Rightarrow> v | None \<Rightarrow> NaN)"
    if "i < length moved" "c \<in> set ?cols" "c \<notin> set stats_list" for i c
  proof -
    have "map_of (reindex_row ?cols (moved ! i)) c =
            Some (case map_of (moved ! i) c of Some v \<Rightarrow> v | None \<Rightarrow> NaN)"
      using that(2) by (simp add: map_of_reindex_row)
    then have "map_of (reg ! i) c = Some (case map_of (moved ! i) c of Some v \<Rightarrow> v | None \<Rightarrow> NaN)"
      using keeps_cells_map_of[OF kept[OF that(1)]] by blast
    moreover have "map_of (?out ! i) c = map_of (reg ! i) c"
      unfolding row[OF that(1)] by (rule map_of_updates_other[OF that(3)])
    ultimately show ?thesis by simp
  qed
  have dist: "map_of (?out ! i) (''dist_'' @ str y) =
                Some (case map_of (moved ! i) (''dist_'' @ str y) of Some v \<Rightarrow> v | None \<Rightarrow> NaN)"
    if "i < length moved" "start_year cfg \<le> y" "y \<le> end_year cfg" for i y
    using col[OF that(1) dist_column_in_range[OF that(2,3)] dist_not_stat] .
  have fixed: "map_of (?out ! i) c \<noteq> None"
    if "i < length moved" "c \<in> set [''geometry'', ''angle_mean'', ''angle_std''] \<union> set stats_list" for i c
  proof (cases "c \<in> set stats_list")
    case True
    then show ?thesis
      using row[OF that(1)] map_of_updates_in[OF True vlen[OF that(1)]] by simp
  next
    case False
    then have "c \<in> set ?cols" using that(2) by (auto simp: movement_columns_def)
    then show ?thesis using col[OF that(1) _ False] by simp
  qed
  have cont: "length contours_gdf = length feats
      \<and> (\<forall>j<length feats. map_of (feats ! j) ''year'' = Some (fst (contours_gdf ! j)))"
    using idx by (auto simp: set_index_def list_all_length split: if_splits)
  show ?thesis
    using run len_out dist fixed cont by blast
qed

theorem output_schema_witness:
  "\<exists>out. tile_pipeline demo_library notebook_config () () = Inr (Some out, demo_contours)
      \<and> length out = 1
      \<and> map_of (out ! 0) ''dist_2020'' = Some (Num 30)
      \<and> map_of (out ! 0) ''dist_2022'' = Some NaN
      \<and> map_of (out ! 0) ''nsm'' \<noteq> None"
proof -
  let ?feats = "[[(''year'', Num 2020), (''geometry'', Geom 0 0)],
                 [(''year'', Num 2021), (''geometry'', Geom 0 1)]]"
  let ?pts = "[[(''geometry'', Geom 0 1)]]"
  let ?moved = "[[(''geometry'', Geom 0 1), (''p_baseline'', Geom 0 1), (''dist_2020'', Num 30),
                  (''dist_2021'', Num 0), (''angle_mean'', Num 90), (''angle_std'', Num 0)]]"
  let ?reg = "[[(''geometry'', Geom 0 1), (''dist_2020'', Num 30), (''dist_2021'', Num 0),
                (''dist_2022'', NaN), (''angle_mean'', Num 90), (''angle_std'', Num 0),
                (''rate_time'', Num (- 30))]]"
  let ?vals = "[[Num 2, Num 2, Num 30, Num (- 30), Num 2020, Num 2021]]"
  have cols: "movement_columns notebook_config =
      [''geometry'', ''dist_2020'', ''dist_2021'', ''dist_2022'', ''angle_mean'', ''angle_std'']"
    by (simp add: movement_columns_def dist_columns_def notebook_config_def upto.simps str_years)
  have re: "reindex (movement_columns notebook_config) ?moved =
      [[(''geometry'', Geom 0 1), (''dist_2020'', Num 30), (''dist_2021'', Num 0),
        (''dist_2022'', NaN), (''angle_mean'', Num 90), (''angle_std'', Num 0)]]"
    unfolding cols by (simp add: reindex_def reindex_row_def)
  have h1: "subpixel_contours demo_library () (index_threshold notebook_config) 10 ''year'' = Inr ?feats"
    by (simp add: demo_library_def)
  have h2: "set_index ''year'' ?feats = Inr demo_contours"
    by (simp add: set_index_def demo_contours_def)
  have h3: "points_on_line demo_library demo_contours (baseline_year notebook_config) 30 = Inr ?pts"
    by (simp add: demo_library_def demo_contours_def notebook_config_def)
  have h4: "?pts \<noteq> []" by simp
  have h5: "annual_movements demo_library ?pts demo_contours () (str (baseline_year notebook_config))
              (water_index notebook_config) 1200 = Inr ?moved"
    by (simp add: demo_library_def)
  have h6: "?moved \<noteq> []" by simp
  have h7: "calculate_regressions demo_library (reindex (movement_columns notebook_config) ?moved) = Inr ?reg"
    unfolding re by (simp add: demo_library_def)
  have h8: "list_all2 keeps_cells (reindex (movement_columns notebook_config) ?moved) ?reg"
    unfolding re by (simp add: keeps_cells_def)
  have h9: "apply_rows (\<lambda>x. all_time_stats demo_library x (start_year notebook_config)) ?reg = Inr ?vals"
    by (simp add: demo_library_def)
  have h10: "list_all (\<lambda>vs. length vs = length stats_list) ?vals"
    by (simp add: stats_list_def)
  from output_schema[OF h1 h2 h3 h4 h5 h6 h7 h8 h9 h10]
  obtain out where out:
    "tile_pipeline demo_library notebook_config () () =
       export_results demo_library (Some out) demo_contours (version notebook_config)
         (output_dir notebook_config) (study_area notebook_config)"
    "length out = length ?moved"
    "\<forall>i<length ?moved.
        (\<forall>y. start_year notebook_config \<le> y \<and> y \<le> end_year notebook_config \<longrightarrow>
            map_of (out ! i) (''dist_'' @ str y) =
              Some (case map_of (?moved ! i) (''dist_'' @ str y) of Some v \<Rightarrow> v | None \<Rightarrow> NaN))
      \<and> (\<forall>c \<in> set [''geometry'', ''angle_mean'', ''angle_std''] \<union> set stats_list.
            map_of (out ! i) c \<noteq> None)"
    by blast
  have d: "\<And>y. 2020 \<le> y \<Longrightarrow> y \<le> 2022 \<Longrightarrow> map_of (out ! 0) (''dist_'' @ str y) =
              Some (case map_of (?moved ! 0) (''dist_'' @ str y) of Some v \<Rightarrow> v | None \<Rightarrow> NaN)"
    using out(3) by (simp add: notebook_config_def)
  have d20: "map_of (out ! 0) ''dist_2020'' = Some (Num 30)"
    using d[of 2020] by (simp add: str_years)
  have d22: "map_of (out ! 0) ''dist_2022'' = Some NaN"
    using d[of 2022] by (simp add: str_years)
  have n: "map_of (out ! 0) ''nsm'' \<noteq> None"
    using out(3) by (simp add: stats_list_def)
  have e: "tile_pipeline demo_library notebook_config () () = Inr (Some out, demo_contours)"
    using out(1) by (simp add: demo_library_def)
  show ?thesis using e out(2) d20 d22 n by auto
qed

section \<open>Properties of the workflow\<close>

lemma dag_nodes:
  "run_dag r [] coastlines_dag =
    (let pn = (if exit_ok r ''generate'' None
               then map (\<lambda>i. container_phase r ''process'' (Some i)) (result r ''generate-ids'')
               else [Omitted])
     in [(''generate-ids'', [container_phase r ''generate'' None]),
         (''process-id'', pn),
         (''merge'', if list_ex (\<lambda>p. p = Succeeded) pn
                     then [container_phase r ''merge-continental'' None] else [Omitted])])"
  by (simp add: coastlines_dag_def run_task_def Let_def container_phase_def)

lemma any_succeeded_pods:
  "list_ex (\<lambda>p. p = Succeeded) (map (\<lambda>i. container_phase r ''process'' (Some i)) ids)
     = (filter (\<lambda>i. exit_ok r ''process'' (Some i)) ids \<noteq> [])"
  by (induction ids) (auto simp: container_phase_def)

text \<open>
  What the DAG decides about the merge task: it depends on
  \<^verbatim>\<open>process-id.AnySucceeded\<close> alone, so whenever at least one tile's \<^verbatim>\<open>process\<close> pod
  succeeded the \<^verbatim>\<open>merge-continental\<close> container is run, however many other tiles
  failed, and when no tile succeeded the task is omitted. Whether the container then
  exits with success is not the workflow's to decide: the phase of the task is the
  phase of the container, which is a parameter of the run.
\<close>

lemma merge_gate:
  "(succeeded_tiles r \<noteq> [] \<longrightarrow>
      merge_node r = Some [container_phase r ''merge-continental'' None])
   \<and> (succeeded_tiles r = [] \<longrightarrow> merge_node r = Some [Omitted])"
proof (cases "exit_ok r ''generate'' None")
  case False
  then show ?thesis
    unfolding merge_node_def dag_nodes succeeded_tiles_def by (simp add: Let_def)
next
  case True
  then show ?thesis
    unfolding merge_node_def dag_nodes succeeded_tiles_def
    by (simp add: Let_def any_succeeded_pods)
qed

lemma merge_gate_example:
  "succeeded_tiles demo_run = [''9,19''] \<and> merge_node demo_run = Some [Succeeded]"
proof -
  have s: "succeeded_tiles demo_run = [''9,19'']"
    by (simp add: succeeded_tiles_def demo_run_def)
  have "merge_node demo_run = Some [container_phase demo_run ''merge-continental'' None]"
    using merge_gate[of demo_run] s by simp
  then show ?thesis using s by (simp add: container_phase_def demo_run_def)
qed

section \<open>Properties of the modelled components\<close>

subsection \<open>TideFilter\<close>

lemma demo_empty: "filter_by_tides demo_tides demo_stack ''/tmp/tide_models'' (1 / 2) False = []"
  by (simp add: filter_by_tides_def demo_stack_def demo_tides_def tide_mean_def tidal_range_def Let_def)

text \<open>
  Claim C5. The filtered stack is a subsequence of the input stack: every observation
  it holds is an observation of the input, unchanged, in the input's order and no more
  often than in the input. An empty result is an ordinary value of the filter, as on
  the stack with tides 0, 0 and 3 at the fraction 1/2.
\<close>

theorem filtered_stack_subset:
  "subseq (filter_by_tides model_tides ds loc fraction hr) ds
   \<and> set (filter_by_tides model_tides ds loc fraction hr) \<subseteq> set ds
   \<and> (\<forall>ob. count_list (filter_by_tides model_tides ds loc fraction hr) ob \<le> count_list ds ob)
   \<and> length (filter_by_tides model_tides ds loc fraction hr) \<le> length ds
   \<and> filter_by_tides demo_tides demo_stack ''/tmp/tide_models'' (1 / 2) False = []"
proof -
  have c: "count_list (filter P xs) x \<le> count_list xs x" for P and xs :: "'b list" and x
    by (induction xs) auto
  show ?thesis
    using demo_empty by (auto simp: filter_by_tides_def Let_def c)
qed

theorem filtered_stack_subset_witness:
  "filter_by_tides demo_tides demo_stack ''/tmp/tide_models'' 1 False =
     [\<lparr>obs_time = 1, pixels = ()\<rparr>, \<lparr>obs_time = 2, pixels = ()\<rparr>]
   \<and> subseq [\<lparr>obs_time = 1, pixels = ()\<rparr>, \<lparr>obs_time = 2, pixels = ()\<rparr>] demo_stack"
proof -
  have e: "filter_by_tides demo_tides demo_stack ''/tmp/tide_models'' 1 False =
     [\<lparr>obs_time = 1, pixels = ()\<rparr>, \<lparr>obs_time = 2, pixels = ()\<rparr>]"
    by (simp add: filter_by_tides_def demo_stack_def demo_tides_def tide_mean_def
        tidal_range_def Let_def)
  have "subseq (filter_by_tides demo_tides demo_stack ''/tmp/tide_models'' 1 False) demo_stack"
    using filtered_stack_subset[of demo_tides demo_stack "''/tmp/tide_models''" 1 False]
    by (rule conjunct1)
  then show ?thesis unfolding e by simp
qed


subsection \<open>PointSampler\<close>

lemma locate_some:
  "\<forall>l\<in>set ls. 0 \<le> l \<Longrightarrow> 0 \<le> a \<Longrightarrow> a < sum_list ls \<Longrightarrow>
     \<exists>j off. locate ls i a = Some (i + j, off) \<and> j < length ls \<and> 0 \<le> off \<and> off < ls ! j"
proof (induction ls arbitrary: i a)
  case Nil
  then show ?case by simp
next
  case (Cons l ls)
  show ?case
  proof (cases "a < l")
    case True
    then show ?thesis using Cons.prems by (intro exI[of _ 0] exI[of _ a]) simp
  next
    case False
    then have "0 \<le> a - l" "a - l < sum_list ls" using Cons.prems by auto
    from Cons.IH[OF _ this, of "Suc i"] Cons.prems(1)
    obtain j off where "locate ls (Suc i) (a - l) = Some (Suc i + j, off)" "j < length ls"
      "0 \<le> off" "off < ls ! j" by auto
    then show ?thesis using False by (intro exI[of _ "Suc j"] exI[of _ off]) simp
  qed
qed

lemma arc_below:
  assumes "0 < (S::rat)" "k < nat \<lceil>L / S\<rceil>"
  shows "of_nat k * S < L"
proof -
  have "int k < \<lceil>L / S\<rceil>" using assms(2) by linarith
  then have "of_int (int k) < L / S" by (simp only: less_ceiling_iff)
  then show ?thesis using assms(1) by (simp add: pos_less_divide_eq)
qed

lemma count_bounds:
  assumes "0 < (S::rat)" "0 \<le> L"
  shows "\<lfloor>L / S\<rfloor> \<le> int (nat \<lceil>L / S\<rceil>)" "int (nat \<lceil>L / S\<rceil>) \<le> \<lfloor>L / S\<rfloor> + 1"
proof -
  have "0 \<le> L / S" using assms by simp
  then have c: "0 \<le> \<lceil>L / S\<rceil>" by (simp add: ceiling_le_iff le_ceiling_iff)
  have "\<lfloor>L / S\<rfloor> \<le> \<lceil>L / S\<rceil>" by (rule floor_le_ceiling)
  then show "\<lfloor>L / S\<rfloor> \<le> int (nat \<lceil>L / S\<rceil>)" using c by simp
  have "\<lceil>L / S\<rceil> - \<lfloor>L / S\<rfloor> \<le> 1" by (rule ceiling_diff_floor_le_1)
  then show "int (nat \<lceil>L / S\<rceil>) \<le> \<lfloor>L / S\<rfloor> + 1" using c by simp
qed

lemma arcs_increasing:
  assumes "0 < (S::rat)"
  shows "sorted_wrt (<) (map (\<lambda>k. of_nat k * S) [0 ..< n])"
proof -
  have "sorted_wrt (\<lambda>a b. (of_nat a * S :: rat) < of_nat b * S) [0 ..< n]"
    by (rule sorted_wrt_mono_rel[OF _ sorted_wrt_upt]) (use assms in auto)
  then show ?thesis by (simp add: sorted_wrt_map)
qed

text \<open>
  Claim C6. For a positive spacing S and a contour of total arc length L, the sampler
  returns \<open>\<lfloor>L / S\<rfloor>\<close> or \<open>\<lfloor>L / S\<rfloor> + 1\<close> points; their arc positions increase
  strictly (contour order), each lies on the contour, on a component the walk has
  reached, and the first one is the start of the contour. The sampler is a function of
  the contour and the spacing, so a second run returns the same sequence.
\<close>

theorem point_sampler_count:
  assumes "0 < spacing" "\<forall>l\<in>set comps. 0 \<le> l"
  shows "\<bar>int (length (point_sampler comps spacing)) - \<lfloor>sum_list comps / spacing\<rfloor>\<bar> \<le> 1
       \<and> sorted_wrt (<) (map arc (point_sampler comps spacing))
       \<and> (\<forall>p\<in>set (point_sampler comps spacing).
             0 \<le> arc p \<and> arc p < sum_list comps
           \<and> (\<exists>j off. located p = Some (j, off) \<and> j < length comps \<and> 0 \<le> off \<and> off < comps ! j))
       \<and> (point_sampler comps spacing \<noteq> [] \<longrightarrow> arc (hd (point_sampler comps spacing)) = 0)"
proof -
  let ?L = "sum_list comps"
  let ?n = "sample_count comps spacing"
  have L0: "0 \<le> ?L" using assms(2) by (simp add: sum_list_nonneg)
  have len: "length (point_sampler comps spacing) = ?n" by (simp add: point_sampler_def)
  have cnt: "\<bar>int ?n - \<lfloor>?L / spacing\<rfloor>\<bar> \<le> 1"
    using count_bounds[OF assms(1) L0] unfolding sample_count_def by linarith
  have arcs: "map arc (point_sampler comps spacing) = map (\<lambda>k. of_nat k * spacing) [0 ..< ?n]"
    by (simp add: point_sampler_def comp_def)
  have ord: "sorted_wrt (<) (map arc (point_sampler comps spacing))"
    unfolding arcs by (rule arcs_increasing[OF assms(1)])
  have pt: "0 \<le> arc p \<and> arc p < ?L
        \<and> (\<exists>j off. located p = Some (j, off) \<and> j < length comps \<and> 0 \<le> off \<and> off < comps ! j)"
    if "p \<in> set (point_sampler comps spacing)" for p
  proof -
    from that obtain k where k: "k < ?n" "arc p = of_nat k * spacing"
      "located p = locate comps 0 (of_nat k * spacing)"
      by (auto simp: point_sampler_def)
    have nn: "0 \<le> of_nat k * spacing" using assms(1) by simp
    have lt: "of_nat k * spacing < ?L"
      using arc_below[OF assms(1), of k ?L] k(1) by (simp add: sample_count_def)
    from locate_some[OF assms(2) nn lt, of 0] show ?thesis using k nn lt by auto
  qed
  have first: "arc (hd (point_sampler comps spacing)) = 0" if "point_sampler comps spacing \<noteq> []"
  proof -
    have "0 < ?n" using that len by (cases "?n") auto
    then have "[0 ..< ?n] = 0 # [1 ..< ?n]" by (simp add: upt_conv_Cons)
    then show ?thesis by (simp add: point_sampler_def)
  qed
  show ?thesis using len cnt ord pt first by auto
qed

lemma sampler_example:
  "point_sampler [50, 25] 30 =
     [\<lparr>arc = 0, located = Some (0, 0)\<rparr>, \<lparr>arc = 30, located = Some (0, 30)\<rparr>,
      \<lparr>arc = 60, located = Some (1, 10)\<rparr>]"
proof -
  have "\<lceil>(75::rat) / 30\<rceil> = 3" by (rule ceiling_unique) simp_all
  then have n: "sample_count [50, 25] 30 = 3" by (simp add: sample_count_def)
  have u: "[0 ..< 3] = [0, 1, 2::nat]" by (simp add: upt_conv_Cons)
  show ?thesis unfolding point_sampler_def n u by simp
qed

theorem point_sampler_count_witness:
  "\<bar>int (length (point_sampler [50, 25] 30)) - \<lfloor>sum_list [50, 25::rat] / 30\<rfloor>\<bar> \<le> 1
   \<and> sorted_wrt (<) (map arc (point_sampler [50, 25] 30))
   \<and> map located (point_sampler [50, 25] 30) = [Some (0, 0), Some (0, 30), Some (1, 10)]"
proof -
  have h: "(0::rat) < 30" "\<forall>l\<in>set [50, 25::rat]. 0 \<le> l" by simp_all
  have e: "map located (point_sampler [50, 25] 30) = [Some (0, 0), Some (0, 30), Some (1, 10)]"
    unfolding sampler_example by simp
  show ?thesis
    using point_sampler_count[OF h] e by blast
qed

subsection \<open>StatsEngine\<close>

lemma arg_max_by_mem: "arg_max_by k b ps \<in> set (b # ps)"
  by (induction ps arbitrary: b) (auto split: if_splits)

lemma arg_min_by_mem: "arg_min_by k b ps \<in> set (b # ps)"
  by (induction ps arbitrary: b) (auto split: if_splits)

lemma arg_max_by_ge_best: "k b \<le> k (arg_max_by k b ps)"
proof (induction ps arbitrary: b)
  case Nil then show ?case by simp
next
  case (Cons p ps)
  show ?case using Cons.IH[of "if k b < k p then p else b"] by (auto split: if_splits)
qed

lemma arg_min_by_le_best: "k (arg_min_by k b ps) \<le> k b"
proof (induction ps arbitrary: b)
  case Nil then show ?case by simp
next
  case (Cons p ps)
  show ?case using Cons.IH[of "if k p < k b then p else b"] by (auto split: if_splits)
qed

lemma arg_max_by_ge: "x \<in> set (b # ps) \<Longrightarrow> k x \<le> k (arg_max_by k b ps)"
proof (induction ps arbitrary: b)
  case Nil then show ?case by simp
next
  case (Cons p ps)
  let ?b = "if k b < k p then p else b"
  have best: "k ?b \<le> k (arg_max_by k ?b ps)" by (rule arg_max_by_ge_best)
  show ?case
  proof (cases "x \<in> set ps")
    case True
    then show ?thesis using Cons.IH[of ?b] by simp
  next
    case False
    then have "x = b \<or> x = p" using Cons.prems by auto
    then have "k x \<le> k ?b" by auto
    then show ?thesis using best by simp
  qed
qed

lemma arg_min_by_le: "x \<in> set (b # ps) \<Longrightarrow> k (arg_min_by k b ps) \<le> k x"
proof (induction ps arbitrary: b)
  case Nil then show ?case by simp
next
  case (Cons p ps)
  let ?b = "if k p < k b then p else b"
  have best: "k (arg_min_by k ?b ps) \<le> k ?b" by (rule arg_min_by_le_best)
  show ?case
  proof (cases "x \<in> set ps")
    case True
    then show ?thesis using Cons.IH[of ?b] by simp
  next
    case False
    then have "x = b \<or> x = p" using Cons.prems by auto
    then have "k ?b \<le> k x" by auto
    then show ?thesis using best by simp
  qed
qed

lemma Max_snd_eq:
  assumes "h \<in> set xs" "\<forall>x\<in>set xs. k x \<le> k h"
  shows "Max (k ` set xs) = (k h :: 'k::linorder)"
  by (rule Max_eqI) (use assms in auto)

lemma Min_snd_eq:
  assumes "h \<in> set xs" "\<forall>x\<in>set xs. k h \<le> k x"
  shows "Min (k ` set xs) = (k h :: 'k::linorder)"
  by (rule Min_eqI) (use assms in auto)

lemma stats_engine_many:
  assumes v: "valid_years rec = p # q # ps"
  shows "\<exists>late early. late \<in> set (valid_years rec) \<and> early \<in> set (valid_years rec)
           \<and> (\<forall>x\<in>set (valid_years rec). fst early \<le> fst x \<and> fst x \<le> fst late)
           \<and> nsm (stats_engine rec y0) = Some (snd late - snd early)"
    and "sce (stats_engine rec y0) =
           Some (Max (snd ` set (valid_years rec)) - Min (snd ` set (valid_years rec)))"
proof -
  define late where "late = arg_max_by fst p (q # ps)"
  define early where "early = arg_min_by fst p (q # ps)"
  define high where "high = arg_max_by snd p (q # ps)"
  define low where "low = arg_min_by snd p (q # ps)"
  have mem: "late \<in> set (valid_years rec)" "early \<in> set (valid_years rec)"
    "high \<in> set (valid_years rec)" "low \<in> set (valid_years rec)"
    unfolding v late_def early_def high_def low_def
    by (rule arg_max_by_mem arg_min_by_mem)+
  have ord: "\<forall>x\<in>set (valid_years rec). fst early \<le> fst x \<and> fst x \<le> fst late"
    unfolding v late_def early_def
    using arg_max_by_ge[of _ p "q # ps" fst] arg_min_by_le[of _ p "q # ps" fst] by blast
  have hi: "\<forall>x\<in>set (valid_years rec). snd x \<le> snd high"
    unfolding v high_def using arg_max_by_ge[of _ p "q # ps" snd] by blast
  have lo: "\<forall>x\<in>set (valid_years rec). snd low \<le> snd x"
    unfolding v low_def using arg_min_by_le[of _ p "q # ps" snd] by blast
  have nsm: "nsm (stats_engine rec y0) = Some (snd late - snd early)"
    unfolding late_def early_def by (simp add: stats_engine_def v Let_def)
  have sce: "sce (stats_engine rec y0) = Some (snd high - snd low)"
    unfolding high_def low_def by (simp add: stats_engine_def v Let_def)
  show "\<exists>late early. late \<in> set (valid_years rec) \<and> early \<in> set (valid_years rec)
           \<and> (\<forall>x\<in>set (valid_years rec). fst early \<le> fst x \<and> fst x \<le> fst late)
           \<and> nsm (stats_engine rec y0) = Some (snd late - snd early)"
    using mem(1,2) ord nsm by blast
  show "sce (stats_engine rec y0) =
           Some (Max (snd ` set (valid_years rec)) - Min (snd ` set (valid_years rec)))"
    unfolding sce Max_snd_eq[OF mem(3) hi] Min_snd_eq[OF mem(4) lo] by simp
qed

lemma stats_engine_few:
  assumes "length (valid_years rec) < 2"
  shows "slope (stats_engine rec y0) = None \<and> nsm (stats_engine rec y0) = None
       \<and> sce (stats_engine rec y0) = None \<and> valid_span (stats_engine rec y0) = None"
proof (cases "valid_years rec")
  case Nil
  then show ?thesis by (simp add: stats_engine_def)
next
  case (Cons p ps)
  then have "ps = []" using assms by simp
  then show ?thesis using Cons by (simp add: stats_engine_def)
qed

lemma valid_obs_count: "valid_obs (stats_engine rec y0) = length (valid_years rec)"
proof (cases "valid_years rec")
  case Nil
  then show ?thesis by (simp add: stats_engine_def)
next
  case (Cons p ps)
  then show ?thesis by (cases ps) (simp_all add: stats_engine_def Let_def)
qed

text \<open>
  Claim C4. With fewer than two valid observations the slope, NSM and SCE are missing
  values. With two or more, NSM is the distance at a valid year that no valid year
  follows minus the distance at a valid year that no valid year precedes, and SCE is
  the maximum minus the minimum of the valid distances. SCE is never negative. The
  engine is total: it returns a record on every point record.
\<close>

theorem stats_engine_spec:
  "(length (valid_years rec) < 2 \<longrightarrow>
       slope (stats_engine rec y0) = None \<and> nsm (stats_engine rec y0) = None
     \<and> sce (stats_engine rec y0) = None)
   \<and> (2 \<le> length (valid_years rec) \<longrightarrow>
       (\<exists>late early. late \<in> set (valid_years rec) \<and> early \<in> set (valid_years rec)
           \<and> (\<forall>x\<in>set (valid_years rec). fst early \<le> fst x \<and> fst x \<le> fst late)
           \<and> nsm (stats_engine rec y0) = Some (snd late - snd early))
     \<and> sce (stats_engine rec y0) =
           Some (Max (snd ` set (valid_years rec)) - Min (snd ` set (valid_years rec))))
   \<and> (\<forall>s. sce (stats_engine rec y0) = Some s \<longrightarrow> 0 \<le> s)
   \<and> valid_obs (stats_engine rec y0) = length (valid_years rec)"
proof -
  have few: "length (valid_years rec) < 2 \<Longrightarrow>
       slope (stats_engine rec y0) = None \<and> nsm (stats_engine rec y0) = None
     \<and> sce (stats_engine rec y0) = None"
    using stats_engine_few[of rec y0] by simp
  have many: "(\<exists>late early. late \<in> set (valid_years rec) \<and> early \<in> set (valid_years rec)
           \<and> (\<forall>x\<in>set (valid_years rec). fst early \<le> fst x \<and> fst x \<le> fst late)
           \<and> nsm (stats_engine rec y0) = Some (snd late - snd early))
     \<and> sce (stats_engine rec y0) =
           Some (Max (snd ` set (valid_years rec)) - Min (snd ` set (valid_years rec)))"
    if "2 \<le> length (valid_years rec)"
  proof -
    from that obtain p q ps where v: "valid_years rec = p # q # ps"
      by (cases "valid_years rec"; cases "tl (valid_years rec)") auto
    show ?thesis using stats_engine_many(1,2)[OF v, of y0] by blast
  qed
  have nonneg: "0 \<le> s" if s: "sce (stats_engine rec y0) = Some s" for s
  proof (cases "length (valid_years rec) < 2")
    case True
    then show ?thesis using few s by simp
  next
    case False
    then have two: "2 \<le> length (valid_years rec)" by simp
    then obtain p ps where "valid_years rec = p # ps"
      by (cases "valid_years rec") auto
    then have d: "snd p \<in> snd ` set (valid_years rec)" by simp
    have "Min (snd ` set (valid_years rec)) \<le> snd p"
      "snd p \<le> Max (snd ` set (valid_years rec))"
      by (rule Min_le[OF _ d], simp) (rule Max_ge[OF _ d], simp)
    then have "Min (snd ` set (valid_years rec)) \<le> Max (snd ` set (valid_years rec))"
      by simp
    then show ?thesis using many[OF two] s by simp
  qed
  show ?thesis
  proof (intro conjI impI allI)
    show "valid_obs (stats_engine rec y0) = length (valid_years rec)"
      by (rule valid_obs_count)
  qed (use few many nonneg in blast)+
qed

theorem stats_engine_spec_witness:
  "length (valid_years [(2020, Some 3), (2021, None), (2022, Some (- 2))]) = 2
   \<and> sce (stats_engine [(2020, Some 3), (2021, None), (2022, Some (- 2))] 2020) = Some 5
   \<and> nsm (stats_engine [(2020, Some 3), (2021, None), (2022, Some (- 2))] 2020) = Some (- 5)
   \<and> length (valid_years [(2020, Some 3), (2021, None)]) = 1
   \<and> slope (stats_engine [(2020, Some 3), (2021, None)] 2020) = None
   \<and> nsm (stats_engine [(2020, Some 3), (2021, None)] 2020) = None
   \<and> sce (stats_engine [(2020, Some 3), (2021, None)] 2020) = None"
proof -
  let ?r2 = "[(2020, Some 3), (2021, None), (2022, Some (- 2))] :: point_record"
  let ?r1 = "[(2020, Some 3), (2021, None)] :: point_record"
  have v2: "valid_years ?r2 = [(2020, 3), (2022, - 2)]" by simp
  have v1: "valid_years ?r1 = [(2020, 3)]" by simp
  have "sce (stats_engine ?r2 2020) =
          Some (Max (snd ` set (valid_years ?r2)) - Min (snd ` set (valid_years ?r2)))"
    using stats_engine_spec[of ?r2 2020] unfolding v2 by simp
  then have s: "sce (stats_engine ?r2 2020) = Some 5" unfolding v2 by simp
  have n: "nsm (stats_engine ?r2 2020) = Some (- 5)"
    by (simp add: stats_engine_def Let_def)
  have few: "slope (stats_engine ?r1 2020) = None \<and> nsm (stats_engine ?r1 2020) = None
      \<and> sce (stats_engine ?r1 2020) = None"
    using stats_engine_spec[of ?r1 2020] unfolding v1 by simp
  show ?thesis using v2 v1 s n few by simp
qed

end
